theory Spec2Isabelle
  imports Complex_Main
begin

section \<open>The diffraction solver of src/site/diffraction/diffraction.js\<close>

text \<open>
  The script defines one function, \<^verbatim>\<open>calculateDiffractionLimit\<close>, and calls it
  once from its command-line front end. A JavaScript Number is modelled as a \<^typ>\<open>real\<close>:
  the arguments are taken to be finite (the front end rejects \<^verbatim>\<open>NaN\<close>), and \<^verbatim>\<open>*\<close>,
  \<^verbatim>\<open>/\<close>, \<^verbatim>\<open>Math.acos\<close> and \<^verbatim>\<open>Math.sqrt\<close> are read as the exact operations they
  approximate. The interval arithmetic of the loop is exact in the source as well:
  \<^verbatim>\<open>low\<close>, \<^verbatim>\<open>high\<close> and their midpoint are multiples of \<open>2\<^sup>-\<^sup>2\<^sup>0\<close> throughout.
\<close>

subsection \<open>Constants of the loop\<close>

definition tolerance :: real where
  "tolerance = 1 / 1000000"

definition maxIterations :: nat where
  "maxIterations = 100"

subsection \<open>The closure \<^verbatim>\<open>mtf\<close>\<close>

text \<open>
  \<^verbatim>\<open>
  const mtf = (u) => {
      if (u <= 0) return 1.0;
      if (u >= 1) return 0.0;
      return (2 / Math.PI) * (Math.acos(u) - u * Math.sqrt(1 - u * u));
  };
  \<close>
\<close>

definition mtf :: "real \<Rightarrow> real" where
  "mtf u = (if u \<le> 0 then 1
            else if u \<ge> 1 then 0
            else (2 / pi) * (arccos u - u * sqrt (1 - u * u)))"

subsection \<open>The bisection loop\<close>

text \<open>
  The \<^verbatim>\<open>while\<close> loop, as a recursion on its four variables. The function \<open>m\<close> is the
  closure called in the body (\<^const>\<open>mtf\<close> at the only call site). \<^verbatim>\<open>break\<close> leaves
  with the midpoint just computed and the counter not incremented; a false loop
  condition leaves with the variables as they are.
\<close>

function bisection :: "(real \<Rightarrow> real) \<Rightarrow> real \<Rightarrow> real \<Rightarrow> real \<Rightarrow> real \<Rightarrow> nat \<Rightarrow> real \<times> nat" where
  "bisection m targetMtf low high u iterations =
     (if high - low > tolerance \<and> iterations < maxIterations then
        (let u' = (low + high) / 2;
             currentMtf = m u'
         in if \<bar>currentMtf - targetMtf\<bar> < tolerance then (u', iterations)
            else if currentMtf > targetMtf
              then bisection m targetMtf u' high u' (iterations + 1)
              else bisection m targetMtf low u' u' (iterations + 1))
      else (u, iterations))"
  by pat_completeness auto
termination
  by (relation "measure (\<lambda>(m, targetMtf, low, high, u, iterations). maxIterations - iterations)")
     auto

declare bisection.simps [simp del]

text \<open>
  The number of times the loop body is entered, counted along the same recursion:
  a body that breaks is counted and is the last one.
\<close>

function bodyRuns :: "(real \<Rightarrow> real) \<Rightarrow> real \<Rightarrow> real \<Rightarrow> real \<Rightarrow> nat \<Rightarrow> nat" where
  "bodyRuns m targetMtf low high iterations =
     (if high - low > tolerance \<and> iterations < maxIterations then
        (let u' = (low + high) / 2;
             currentMtf = m u'
         in if \<bar>currentMtf - targetMtf\<bar> < tolerance then 1
            else if currentMtf > targetMtf
              then 1 + bodyRuns m targetMtf u' high (iterations + 1)
              else 1 + bodyRuns m targetMtf low u' (iterations + 1))
      else 0)"
  by pat_completeness auto
termination
  by (relation "measure (\<lambda>(m, targetMtf, low, high, iterations). maxIterations - iterations)")
     auto

declare bodyRuns.simps [simp del]

subsection \<open>Rounding of the returned fields\<close>

text \<open>
  \<^verbatim>\<open>Number(x.toFixed(d))\<close>: \<^verbatim>\<open>toFixed\<close> takes the sign off, picks the integer \<open>n\<close> with
  \<open>n / 10\<^sup>d\<close> nearest to the magnitude (the larger one at a tie) and prints it with \<open>d\<close>
  decimals; \<^verbatim>\<open>Number\<close> reads the digits back. From \<open>10\<^sup>2\<^sup>1\<close> on \<^verbatim>\<open>toFixed\<close> prints the
  number itself, which is an integer there, so the value is the rounding all the same.
\<close>

definition toFixed :: "nat \<Rightarrow> real \<Rightarrow> real" where
  "toFixed d x =
     (if x < 0 then - (of_int \<lfloor>(- x) * 10 ^ d + 1 / 2\<rfloor> / 10 ^ d)
      else of_int \<lfloor>x * 10 ^ d + 1 / 2\<rfloor> / 10 ^ d)"

subsection \<open>The result and the function\<close>

text \<open>
  The object returned. The early returns build it with two properties only, the last
  return with four: an absent property is \<^const>\<open>None\<close>. A thrown \<^verbatim>\<open>Error\<close> carries
  its message.
\<close>

record result =
  spatialFrequency :: real
  cutoffFrequency :: real
  normalizedFrequency :: "real option"
  iterations :: "nat option"

datatype error = Error string

definition calculateDiffractionLimit :: "real \<Rightarrow> real \<Rightarrow> real \<Rightarrow> error + result" where
  "calculateDiffractionLimit fNumber contrastPercent wavelengthNm =
     (if fNumber \<le> 0 then Inl (Error ''f-number must be positive'')
      else if contrastPercent < 0 \<or> contrastPercent > 100
        then Inl (Error ''Contrast percentage must be between 0 and 100'')
      else if wavelengthNm \<le> 0 then Inl (Error ''Wavelength must be positive'')
      else
        (let wavelengthMm = wavelengthNm * (1 / 1000000);
             cutoff = 1 / (wavelengthMm * fNumber)
         in if contrastPercent \<ge> 100
              then Inr \<lparr>spatialFrequency = 0, cutoffFrequency = cutoff,
                        normalizedFrequency = None, iterations = None\<rparr>
            else if contrastPercent \<le> 0
              then Inr \<lparr>spatialFrequency = cutoff, cutoffFrequency = cutoff,
                        normalizedFrequency = None, iterations = None\<rparr>
            else
              (let targetMtf = contrastPercent / 100
               in case bisection mtf targetMtf 0 1 (1 / 2) 0 of
                    (u, iters) \<Rightarrow>
                      Inr \<lparr>spatialFrequency = toFixed 1 (u * cutoff),
                           cutoffFrequency = toFixed 1 cutoff,
                           normalizedFrequency = Some (toFixed 6 u),
                           iterations = Some iters\<rparr>)))"

text \<open>The third parameter has the default value 520.\<close>

definition calculateDiffractionLimit_default :: "real \<Rightarrow> real \<Rightarrow> error + result" where
  "calculateDiffractionLimit_default fNumber contrastPercent =
     calculateDiffractionLimit fNumber contrastPercent 520"

section \<open>The function over the variables of the script\<close>

text \<open>
  The same function once more, statement by statement, over the variables it names.
  A call runs in a frame of its own, which starts with the three parameters and takes
  every \<^verbatim>\<open>const\<close> and \<^verbatim>\<open>let\<close> of the body; below it lies the top level of the script,
  where the front end declares \<^verbatim>\<open>args\<close>, \<^verbatim>\<open>fNumber\<close>, \<^verbatim>\<open>contrastPercent\<close> and
  \<^verbatim>\<open>wavelengthNm\<close>. A name is read from the frame if it is declared there, else from the
  top level, else the read throws a \<^verbatim>\<open>ReferenceError\<close>; an assignment writes where the
  name is declared, and at the top level if it is declared nowhere (the script is not
  in strict mode). The variables hold numbers. The closure \<^verbatim>\<open>mtf\<close> mentions its own
  parameter only and is the function \<^const>\<open>mtf\<close>; \<^verbatim>\<open>Math\<close>, \<^verbatim>\<open>Number\<close> and \<^verbatim>\<open>Error\<close>
  are the built-in objects, which the script never assigns.
\<close>

datatype exn = Thrown error | ReferenceError string

record scopes =
  frame :: "string \<rightharpoonup> real"
  script :: "string \<rightharpoonup> real"

type_synonym 'a exec = "scopes \<Rightarrow> (exn + 'a) \<times> scopes"

definition lookup :: "scopes \<Rightarrow> string \<Rightarrow> real option" where
  "lookup s x = (case frame s x of Some v \<Rightarrow> Some v | None \<Rightarrow> script s x)"

text \<open>
  A statement takes the scopes and gives a value or an exception, and the scopes after
  it; \<open>seq\<close> runs a statement and hands its value to the rest, unless it threw.
\<close>

definition ret :: "'a \<Rightarrow> 'a exec" where
  "ret v s = (Inr v, s)"

definition throw :: "exn \<Rightarrow> 'a exec" where
  "throw e s = (Inl e, s)"

definition seq :: "'a exec \<Rightarrow> ('a \<Rightarrow> 'b exec) \<Rightarrow> 'b exec" where
  "seq p k s = (case p s of (Inl e, s') \<Rightarrow> (Inl e, s') | (Inr v, s') \<Rightarrow> k v s')"

definition rd :: "string \<Rightarrow> real exec" where
  "rd x s = (case lookup s x of Some v \<Rightarrow> (Inr v, s) | None \<Rightarrow> (Inl (ReferenceError x), s))"

definition decl :: "string \<Rightarrow> real \<Rightarrow> unit exec" where
  "decl x v s = (Inr (), s\<lparr>frame := (frame s)(x \<mapsto> v)\<rparr>)"

definition asg :: "string \<Rightarrow> real \<Rightarrow> unit exec" where
  "asg x v s =
     (if frame s x \<noteq> None then (Inr (), s\<lparr>frame := (frame s)(x \<mapsto> v)\<rparr>)
      else (Inr (), s\<lparr>script := (script s)(x \<mapsto> v)\<rparr>))"

text \<open>
  The loop: its condition with the short-circuit \<^verbatim>\<open>&&\<close>, its body up to \<^verbatim>\<open>break\<close> or to
  \<^verbatim>\<open>iterations++\<close>, and the \<^verbatim>\<open>while\<close> itself. It terminates because a body that does
  not break leaves \<^verbatim>\<open>maxIterations\<close> alone and adds one to \<^verbatim>\<open>iterations\<close>.
\<close>

datatype flow = Next | Break

definition loop_guard :: "bool exec" where
  "loop_guard =
     seq (rd ''high'') (\<lambda>high. seq (rd ''low'') (\<lambda>low. seq (rd ''tolerance'') (\<lambda>tol.
       if high - low > tol
       then seq (rd ''iterations'') (\<lambda>its. seq (rd ''maxIterations'') (\<lambda>maxIts.
              ret (its < maxIts)))
       else ret False)))"

definition loop_body :: "flow exec" where
  "loop_body =
     seq (rd ''low'') (\<lambda>low. seq (rd ''high'') (\<lambda>high. seq (asg ''u'' ((low + high) / 2)) (\<lambda>_.
     seq (rd ''u'') (\<lambda>u. seq (decl ''currentMtf'' (mtf u)) (\<lambda>_.
     seq (rd ''currentMtf'') (\<lambda>currentMtf. seq (rd ''targetMtf'') (\<lambda>targetMtf.
     seq (rd ''tolerance'') (\<lambda>tol.
       if \<bar>currentMtf - targetMtf\<bar> < tol then ret Break
       else
         seq (if currentMtf > targetMtf
              then seq (rd ''u'') (\<lambda>u. asg ''low'' u)
              else seq (rd ''u'') (\<lambda>u. asg ''high'' u)) (\<lambda>_.
         seq (rd ''iterations'') (\<lambda>its. seq (asg ''iterations'' (its + 1)) (\<lambda>_.
         ret Next)))))))))))"

function while_loop :: "unit exec" where
  "while_loop s =
     (case loop_guard s of
        (Inl e, s1) \<Rightarrow> (Inl e, s1)
      | (Inr False, s1) \<Rightarrow> (Inr (), s1)
      | (Inr True, s1) \<Rightarrow>
          (case loop_body s1 of
             (Inl e, s2) \<Rightarrow> (Inl e, s2)
           | (Inr Break, s2) \<Rightarrow> (Inr (), s2)
           | (Inr Next, s2) \<Rightarrow> while_loop s2))"
  by pat_completeness auto
termination
proof (relation "measure (\<lambda>s. case lookup s ''maxIterations'' of
                                  Some M \<Rightarrow> (case lookup s ''iterations'' of
                                               Some i \<Rightarrow> nat \<lceil>M - i\<rceil> | None \<Rightarrow> 0)
                                | None \<Rightarrow> 0)")
  show "wf (measure (\<lambda>s. case lookup s ''maxIterations'' of
                                  Some M \<Rightarrow> (case lookup s ''iterations'' of
                                               Some i \<Rightarrow> nat \<lceil>M - i\<rceil> | None \<Rightarrow> 0)
                                | None \<Rightarrow> 0))" by simp
next
  fix s x1 s1 b x2 s2 fl
  assume "(x1, s1) = loop_guard s" "x1 = Inr b" "b = True" "(x2, s2) = loop_body s1" "x2 = Inr fl" "fl = Next"
  show "(s2, s) \<in> measure (\<lambda>s. case lookup s ''maxIterations'' of
                                  Some M \<Rightarrow> (case lookup s ''iterations'' of
                                               Some i \<Rightarrow> nat \<lceil>M - i\<rceil> | None \<Rightarrow> 0)
                                | None \<Rightarrow> 0)"
  proof -
    have asg_lookup: "lookup (snd (asg x v t)) y = (if y = x then Some v else lookup t y)"
      and asg_ok: "fst (asg x v t) = Inr ()" for x v t y
      by (auto simp add: asg_def lookup_def split: option.splits)
    have decl_lookup: "lookup (snd (decl x v t)) y = (if y = x then Some v else lookup t y)"
      and decl_ok: "fst (decl x v t) = Inr ()" for x v t y
      by (auto simp add: decl_def lookup_def split: option.splits)
    have seq_unit: "seq p k t = k () (snd (p t))" if "fst (p t) = Inr ()" for p :: "unit exec"
      and k :: "unit \<Rightarrow> flow exec" and t
      using that by (cases "p t") (auto simp add: seq_def)
    have seq_unit': "seq p k t = k () (snd (p t))" if "fst (p t) = Inr ()" for p :: "unit exec"
      and k :: "unit \<Rightarrow> unit exec" and t
      using that by (cases "p t") (auto simp add: seq_def)
    have seq_rd: "seq (rd x) k t = (case lookup t x of Some v \<Rightarrow> k v t
                                     | None \<Rightarrow> (Inl (ReferenceError x), t))"
      for x t and k :: "real \<Rightarrow> flow exec"
      by (auto simp add: seq_def rd_def split: option.splits)
    have seq_rd': "seq (rd x) k t = (case lookup t x of Some v \<Rightarrow> k v t
                                     | None \<Rightarrow> (Inl (ReferenceError x), t))"
      for x t and k :: "real \<Rightarrow> unit exec"
      by (auto simp add: seq_def rd_def split: option.splits)
    have g: "s1 = s" and "\<exists>M i. lookup s ''maxIterations'' = Some M \<and>
                      lookup s ''iterations'' = Some i \<and> i < M"
      using \<open>(x1, s1) = loop_guard s\<close> \<open>x1 = Inr b\<close> \<open>b = True\<close>
      by (auto simp add: loop_guard_def seq_def rd_def ret_def split: option.splits if_splits)
    then obtain M i where Mi: "lookup s ''maxIterations'' = Some M"
      "lookup s ''iterations'' = Some i" "i < M" by blast
    have "loop_body s = (Inr Next, s2)"
      using \<open>(x2, s2) = loop_body s1\<close> \<open>x2 = Inr fl\<close> \<open>fl = Next\<close> g by simp
    then have "lookup s2 ''maxIterations'' = Some M \<and> lookup s2 ''iterations'' = Some (i + 1)"
      using Mi
      by (auto simp add: loop_body_def seq_rd seq_rd' seq_unit seq_unit' asg_ok decl_ok
            asg_lookup decl_lookup ret_def
          split: option.splits if_splits)
    moreover have "M - (i + 1) = (M - i) - 1" by simp
    then have "\<lceil>M - (i + 1)\<rceil> = \<lceil>M - i\<rceil> - 1" by (simp only: ceiling_diff_one)
    moreover have "0 < \<lceil>M - i\<rceil>" using Mi(3) by simp
    ultimately show ?thesis using Mi by simp
  qed
qed


declare while_loop.simps [simp del]

text \<open>
  The body of \<^verbatim>\<open>calculateDiffractionLimit\<close>, lines 82 to 143, and a call of it from the
  top level \<open>g\<close>: the frame of the call is dropped when it returns or throws, the top
  level stays.
\<close>

definition calculateDiffractionLimit_body :: "result exec" where
  "calculateDiffractionLimit_body =
     seq (rd ''fNumber'') (\<lambda>fNumber.
     if fNumber \<le> 0 then throw (Thrown (Error ''f-number must be positive'')) else
     seq (rd ''contrastPercent'') (\<lambda>contrastPercent.
     if contrastPercent < 0 \<or> contrastPercent > 100
       then throw (Thrown (Error ''Contrast percentage must be between 0 and 100'')) else
     seq (rd ''wavelengthNm'') (\<lambda>wavelengthNm.
     if wavelengthNm \<le> 0 then throw (Thrown (Error ''Wavelength must be positive'')) else
     seq (rd ''wavelengthNm'') (\<lambda>wavelengthNm.
     seq (decl ''wavelengthMm'' (wavelengthNm * (1 / 1000000))) (\<lambda>_.
     seq (rd ''wavelengthMm'') (\<lambda>wavelengthMm. seq (rd ''fNumber'') (\<lambda>fNumber.
     seq (decl ''cutoffFrequency'' (1 / (wavelengthMm * fNumber))) (\<lambda>_.
     seq (rd ''contrastPercent'') (\<lambda>contrastPercent.
     if contrastPercent \<ge> 100
       then seq (rd ''cutoffFrequency'') (\<lambda>cutoffFrequency.
              ret \<lparr>spatialFrequency = 0, cutoffFrequency = cutoffFrequency,
                   normalizedFrequency = None, iterations = None\<rparr>) else
     seq (rd ''contrastPercent'') (\<lambda>contrastPercent.
     if contrastPercent \<le> 0
       then seq (rd ''cutoffFrequency'') (\<lambda>cutoffFrequency.
              ret \<lparr>spatialFrequency = cutoffFrequency, cutoffFrequency = cutoffFrequency,
                   normalizedFrequency = None, iterations = None\<rparr>) else
     seq (rd ''contrastPercent'') (\<lambda>contrastPercent.
     seq (decl ''targetMtf'' (contrastPercent / 100)) (\<lambda>_.
     seq (decl ''low'' 0) (\<lambda>_.
     seq (decl ''high'' 1) (\<lambda>_.
     seq (decl ''u'' (1 / 2)) (\<lambda>_.
     seq (decl ''tolerance'' (1 / 1000000)) (\<lambda>_.
     seq (decl ''iterations'' 0) (\<lambda>_.
     seq (decl ''maxIterations'' 100) (\<lambda>_.
     seq while_loop (\<lambda>_.
     seq (rd ''u'') (\<lambda>u. seq (rd ''cutoffFrequency'') (\<lambda>cutoffFrequency.
     seq (decl ''spatialFrequency'' (u * cutoffFrequency)) (\<lambda>_.
     seq (rd ''spatialFrequency'') (\<lambda>spatialFrequency.
     seq (rd ''cutoffFrequency'') (\<lambda>cutoffFrequency.
     seq (rd ''u'') (\<lambda>u. seq (rd ''iterations'') (\<lambda>its.
     ret \<lparr>spatialFrequency = toFixed 1 spatialFrequency,
          cutoffFrequency = toFixed 1 cutoffFrequency,
          normalizedFrequency = Some (toFixed 6 u),
          iterations = Some (nat \<lfloor>its\<rfloor>)\<rparr>))))))))))))))))))))))))))"

definition call :: "(string \<rightharpoonup> real) \<Rightarrow> real \<Rightarrow> real \<Rightarrow> real
    \<Rightarrow> (exn + result) \<times> (string \<rightharpoonup> real)" where
  "call g fNumber contrastPercent wavelengthNm =
     (case calculateDiffractionLimit_body
             \<lparr>frame = [''fNumber'' \<mapsto> fNumber, ''contrastPercent'' \<mapsto> contrastPercent,
                       ''wavelengthNm'' \<mapsto> wavelengthNm],
              script = g\<rparr>
      of (r, s) \<Rightarrow> (r, script s))"

section \<open>Validation and the shape of the result\<close>

lemma calc_valid_cases:
  assumes "0 < fNumber" "0 \<le> contrastPercent" "contrastPercent \<le> 100" "0 < wavelengthNm"
  shows "calculateDiffractionLimit fNumber contrastPercent wavelengthNm =
     (if contrastPercent \<ge> 100
        then Inr \<lparr>spatialFrequency = 0,
                  cutoffFrequency = 1 / (wavelengthNm * (1 / 1000000) * fNumber),
                  normalizedFrequency = None, iterations = None\<rparr>
      else if contrastPercent \<le> 0
        then Inr \<lparr>spatialFrequency = 1 / (wavelengthNm * (1 / 1000000) * fNumber),
                  cutoffFrequency = 1 / (wavelengthNm * (1 / 1000000) * fNumber),
                  normalizedFrequency = None, iterations = None\<rparr>
      else Inr \<lparr>spatialFrequency =
                  toFixed 1 (fst (bisection mtf (contrastPercent / 100) 0 1 (1 / 2) 0)
                             * (1 / (wavelengthNm * (1 / 1000000) * fNumber))),
                cutoffFrequency = toFixed 1 (1 / (wavelengthNm * (1 / 1000000) * fNumber)),
                normalizedFrequency =
                  Some (toFixed 6 (fst (bisection mtf (contrastPercent / 100) 0 1 (1 / 2) 0))),
                iterations = Some (snd (bisection mtf (contrastPercent / 100) 0 1 (1 / 2) 0))\<rparr>)"
  using assms
  by (simp add: calculateDiffractionLimit_def Let_def case_prod_beta not_less not_le)

text \<open>
  Claim C5. The three checks are made in the order f-number, contrast, wavelength, each
  with its own message; the first one that fails decides the error, and the call fails
  exactly when one of the three inputs is out of its domain.
\<close>

theorem validation_order:
  "(fNumber \<le> 0 \<longrightarrow>
      calculateDiffractionLimit fNumber contrastPercent wavelengthNm
        = Inl (Error ''f-number must be positive'')) \<and>
   (0 < fNumber \<and> (contrastPercent < 0 \<or> contrastPercent > 100) \<longrightarrow>
      calculateDiffractionLimit fNumber contrastPercent wavelengthNm
        = Inl (Error ''Contrast percentage must be between 0 and 100'')) \<and>
   (0 < fNumber \<and> 0 \<le> contrastPercent \<and> contrastPercent \<le> 100 \<and> wavelengthNm \<le> 0 \<longrightarrow>
      calculateDiffractionLimit fNumber contrastPercent wavelengthNm
        = Inl (Error ''Wavelength must be positive'')) \<and>
   (isl (calculateDiffractionLimit fNumber contrastPercent wavelengthNm) \<longleftrightarrow>
      \<not> (0 < fNumber \<and> 0 \<le> contrastPercent \<and> contrastPercent \<le> 100 \<and> 0 < wavelengthNm))"
  by (auto simp add: calculateDiffractionLimit_def Let_def split: prod.splits)

theorem validation_order_witness:
  "calculateDiffractionLimit 0 (-1) 0 = Inl (Error ''f-number must be positive'') \<and>
   calculateDiffractionLimit 8 101 0
     = Inl (Error ''Contrast percentage must be between 0 and 100'') \<and>
   calculateDiffractionLimit 8 50 (-5) = Inl (Error ''Wavelength must be positive'') \<and>
   \<not> isl (calculateDiffractionLimit 8 50 520)"
  using validation_order [of 0 "-1" 0] validation_order [of 8 101 0]
    validation_order [of 8 50 "-5"] validation_order [of 8 50 520]
  by simp

text \<open>
  Claim C3. Once the inputs are valid, a contrast of 100 or more returns spatial
  frequency 0 with the cutoff frequency as computed, and a contrast of 0 or less returns
  the cutoff frequency in both fields; neither return comes from the loop (no
  \<^verbatim>\<open>normalizedFrequency\<close>, no \<^verbatim>\<open>iterations\<close>).
\<close>

theorem boundary_short_circuits:
  assumes "0 < fNumber" "0 \<le> contrastPercent" "contrastPercent \<le> 100" "0 < wavelengthNm"
  shows "(contrastPercent \<ge> 100 \<longrightarrow>
            calculateDiffractionLimit fNumber contrastPercent wavelengthNm =
              Inr \<lparr>spatialFrequency = 0,
                   cutoffFrequency = 1 / (wavelengthNm * (1 / 1000000) * fNumber),
                   normalizedFrequency = None, iterations = None\<rparr>) \<and>
         (contrastPercent \<le> 0 \<longrightarrow>
            (\<exists>r. calculateDiffractionLimit fNumber contrastPercent wavelengthNm = Inr r \<and>
                 spatialFrequency r = cutoffFrequency r \<and>
                 cutoffFrequency r = 1 / (wavelengthNm * (1 / 1000000) * fNumber) \<and>
                 normalizedFrequency r = None \<and> iterations r = None))"
  using assms by (simp add: calc_valid_cases)

theorem boundary_short_circuits_witness:
  "calculateDiffractionLimit 8 100 520 =
     Inr \<lparr>spatialFrequency = 0, cutoffFrequency = 3125 / 13,
          normalizedFrequency = None, iterations = None\<rparr> \<and>
   (\<exists>r. calculateDiffractionLimit 8 0 520 = Inr r \<and>
        spatialFrequency r = cutoffFrequency r \<and>
        cutoffFrequency r = 3125 / 13 \<and>
        normalizedFrequency r = None \<and> iterations r = None)"
  using boundary_short_circuits [of 8 100 520] boundary_short_circuits [of 8 0 520]
  by simp

text \<open>
  Claim C6. For valid inputs the returned object has the properties
  \<^verbatim>\<open>normalizedFrequency\<close> and \<^verbatim>\<open>iterations\<close> exactly when the contrast is strictly
  between 0 and 100.
\<close>

theorem optional_fields_present_iff_interior:
  assumes "0 < fNumber" "0 \<le> contrastPercent" "contrastPercent \<le> 100" "0 < wavelengthNm"
  shows "\<exists>r. calculateDiffractionLimit fNumber contrastPercent wavelengthNm = Inr r \<and>
             (normalizedFrequency r \<noteq> None \<longleftrightarrow> 0 < contrastPercent \<and> contrastPercent < 100) \<and>
             (iterations r \<noteq> None \<longleftrightarrow> 0 < contrastPercent \<and> contrastPercent < 100)"
  using assms by (auto simp add: calc_valid_cases)

theorem optional_fields_present_iff_interior_witness:
  "(\<exists>r. calculateDiffractionLimit 8 10 520 = Inr r \<and>
        normalizedFrequency r \<noteq> None \<and> iterations r \<noteq> None) \<and>
   (\<exists>r. calculateDiffractionLimit 8 0 520 = Inr r \<and>
        normalizedFrequency r = None \<and> iterations r = None) \<and>
   (\<exists>r. calculateDiffractionLimit 8 100 520 = Inr r \<and>
        normalizedFrequency r = None \<and> iterations r = None)"
  using optional_fields_present_iff_interior [of 8 10 520]
    optional_fields_present_iff_interior [of 8 0 520]
    optional_fields_present_iff_interior [of 8 100 520]
  by simp

text \<open>
  The return after the loop rounds the cutoff frequency to one decimal.
\<close>

lemma cutoffFrequency_rounded_after_loop:
  assumes "0 < fNumber" "0 < contrastPercent" "contrastPercent < 100" "0 < wavelengthNm"
  shows "cutoffFrequency (projr (calculateDiffractionLimit fNumber contrastPercent wavelengthNm))
       = toFixed 1 (1 / (wavelengthNm * (1 / 1000000) * fNumber))"
  using assms by (simp add: calc_valid_cases)

text \<open>
  Claim C2, at the boundary. At f/8, contrast 100 and 520 nm the cutoff frequency is
  \<open>3125 / 13 = 240.3846...\<close>; rounded to one decimal it is \<open>240.4\<close>, which is what the
  return after the loop would give, but the early return hands back the unrounded
  number.
\<close>

theorem cutoff_unrounded_at_boundary:
  "calculateDiffractionLimit 8 100 520 =
     Inr \<lparr>spatialFrequency = 0, cutoffFrequency = 3125 / 13,
          normalizedFrequency = None, iterations = None\<rparr> \<and>
   toFixed 1 (1 / (520 * (1 / 1000000) * 8)) = 2404 / 10 \<and>
   (3125 / 13 :: real) \<noteq> 2404 / 10"
  by (simp add: calculateDiffractionLimit_def toFixed_def)

section \<open>The loop counter\<close>

text \<open>
  Every pass through the body that does not break halves \<open>high - low\<close> and increments
  the counter, so the width is \<open>1 / 2 ^ iterations\<close> whatever the closure returns, and
  the loop condition \<open>high - low > tolerance\<close> fails from the twentieth halving on.
\<close>

lemma width_gt_tolerance_imp_lt_20:
  assumes "(1::real) / 2 ^ i > tolerance"
  shows "i < 20"
proof (rule ccontr)
  assume "\<not> i < 20"
  then have "20 \<le> i" by simp
  then have "(2::real) ^ 20 \<le> 2 ^ i" by (intro power_increasing) simp_all
  then have "(1::real) / 2 ^ i \<le> 1 / 2 ^ 20" by (intro divide_left_mono) simp_all
  with assms show False by (simp add: tolerance_def)
qed

lemma bisection_iterations_le_20:
  "high - low = 1 / 2 ^ i \<Longrightarrow> i \<le> 20 \<Longrightarrow>
   snd (bisection m targetMtf low high u i) \<le> 20"
proof (induction m targetMtf low high u i rule: bisection.induct)
  case (1 m targetMtf low high u i)
  show ?case
  proof (cases "high - low > tolerance \<and> i < maxIterations")
    case False
    then show ?thesis using "1.prems" by (subst bisection.simps) auto
  next
    case True
    then have lt: "i < 20" using "1.prems" width_gt_tolerance_imp_lt_20 by simp
    have w: "high - (low + high) / 2 = 1 / 2 ^ (i + 1)"
            "(low + high) / 2 - low = 1 / 2 ^ (i + 1)"
      using "1.prems" by (simp_all add: field_simps)
    show ?thesis
      using True lt w "1.IH"(1) [OF True refl refl] "1.IH"(2) [OF True refl refl]
      by (subst bisection.simps) (auto simp add: Let_def)
  qed
qed

lemma bodyRuns_le:
  "high - low = 1 / 2 ^ i \<Longrightarrow> i \<le> 20 \<Longrightarrow>
   bodyRuns m targetMtf low high i + i \<le> 20"
proof (induction m targetMtf low high i rule: bodyRuns.induct)
  case (1 m targetMtf low high i)
  show ?case
  proof (cases "high - low > tolerance \<and> i < maxIterations")
    case False
    then show ?thesis using "1.prems" by (subst bodyRuns.simps) auto
  next
    case True
    then have lt: "i < 20" using "1.prems" width_gt_tolerance_imp_lt_20 by simp
    have w: "high - (low + high) / 2 = 1 / 2 ^ (i + 1)"
            "(low + high) / 2 - low = 1 / 2 ^ (i + 1)"
      using "1.prems" by (simp_all add: field_simps)
    show ?thesis
      using True lt w "1.IH"(1) [OF True refl refl] "1.IH"(2) [OF True refl refl]
      by (subst bodyRuns.simps) (auto simp add: Let_def)
  qed
qed

lemma width_le_tolerance:
  assumes "20 \<le> i"
  shows "(1::real) / 2 ^ i \<le> tolerance"
  using width_gt_tolerance_imp_lt_20 [of i] assms by fastforce

section \<open>The transfer function\<close>

text \<open>
  With \<open>u = cos \<theta>\<close> the bracket of \<^const>\<open>mtf\<close> is \<open>\<theta> - sin \<theta> cos \<theta>\<close>, whose derivative
  \<open>2 sin\<^sup>2 \<theta>\<close> is never negative and at most \<open>2 sin \<theta>\<close> on \<open>[0, \<pi>]\<close>.
\<close>

lemma mtf_arccos:
  assumes "0 \<le> u" "u \<le> 1"
  shows "mtf u = (2 / pi) * (arccos u - sin (arccos u) * cos (arccos u))"
proof -
  consider "u = 0" | "u = 1" | "0 < u" "u < 1" using assms by fastforce
  then show ?thesis
  proof cases
    case 1 then show ?thesis by (simp add: mtf_def)
  next
    case 2 then show ?thesis by (simp add: mtf_def)
  next
    case 3
    then have "sin (arccos u) = sqrt (1 - u * u)"
      using sin_arccos [of u] by (simp add: power2_eq_square)
    then show ?thesis using 3 by (simp add: mtf_def mult.commute)
  qed
qed

lemma segment_area_mono:
  fixes a b :: real
  assumes "b \<le> a"
  shows "b - sin b * cos b \<le> a - sin a * cos a"
proof (rule DERIV_nonneg_imp_nondecreasing [OF assms])
  fix x :: real
  have "((\<lambda>x. x - sin x * cos x) has_real_derivative (1 - (cos x * cos x + - sin x * sin x))) (at x)"
    by (auto intro!: derivative_eq_intros)
  moreover have "1 - (cos x * cos x + - sin x * sin x) = 2 * (sin x)\<^sup>2"
    using sin_cos_squared_add [of x] by (simp add: power2_eq_square algebra_simps)
  ultimately show "\<exists>y. ((\<lambda>x. x - sin x * cos x) has_real_derivative y) (at x) \<and> 0 \<le> y"
    by (metis zero_le_power2 mult_nonneg_nonneg zero_le_numeral)
qed

lemma segment_area_lipschitz:
  fixes a b :: real
  assumes "0 \<le> b" "b \<le> a" "a \<le> pi"
  shows "(a - sin a * cos a) - (b - sin b * cos b) \<le> 2 * (cos b - cos a)"
proof -
  let ?h = "\<lambda>x::real. - 2 * cos x - (x - sin x * cos x)"
  have "?h b \<le> ?h a"
  proof (rule DERIV_nonneg_imp_nondecreasing [OF assms(2)])
    fix x :: real
    assume x: "b \<le> x" "x \<le> a"
    have d: "(?h has_real_derivative (- 2 * (- sin x) - (1 - (cos x * cos x + - sin x * sin x)))) (at x)"
      by (auto intro!: derivative_eq_intros)
    have "cos x * cos x = 1 - sin x * sin x"
      using sin_cos_squared_add [of x] by (simp add: power2_eq_square algebra_simps)
    then have e: "- 2 * (- sin x) - (1 - (cos x * cos x + - sin x * sin x)) = 2 * sin x * (1 - sin x)"
      by (simp add: algebra_simps)
    have "0 \<le> sin x" using x assms by (intro sin_ge_zero) simp_all
    then have "0 \<le> 2 * sin x * (1 - sin x)" by simp
    with d e show "\<exists>y. (?h has_real_derivative y) (at x) \<and> 0 \<le> y" by metis
  qed
  then show ?thesis by simp
qed

lemma mtf_antimono:
  assumes "0 \<le> u1" "u1 \<le> u2" "u2 \<le> 1"
  shows "mtf u2 \<le> mtf u1"
proof -
  have "arccos u2 \<le> arccos u1" using assms by (simp add: arccos_le_mono)
  then have "arccos u2 - sin (arccos u2) * cos (arccos u2)
           \<le> arccos u1 - sin (arccos u1) * cos (arccos u1)"
    by (rule segment_area_mono)
  then have "(2 / pi) * (arccos u2 - sin (arccos u2) * cos (arccos u2))
           \<le> (2 / pi) * (arccos u1 - sin (arccos u1) * cos (arccos u1))"
    by (intro mult_left_mono) simp_all
  then show ?thesis using assms by (simp add: mtf_arccos)
qed

lemma mtf_lipschitz:
  assumes "0 \<le> u1" "u1 \<le> u2" "u2 \<le> 1"
  shows "mtf u1 - mtf u2 \<le> 2 * (u2 - u1)"
proof -
  have le: "arccos u2 \<le> arccos u1" using assms by (simp add: arccos_le_mono)
  have "0 \<le> arccos u2" "arccos u1 \<le> pi"
    using assms by (simp_all add: arccos_lbound arccos_ubound)
  from segment_area_lipschitz [OF this(1) le this(2)]
  have "(arccos u1 - sin (arccos u1) * cos (arccos u1))
        - (arccos u2 - sin (arccos u2) * cos (arccos u2)) \<le> 2 * (u2 - u1)"
    using assms by simp
  then have "(2 / pi) * ((arccos u1 - sin (arccos u1) * cos (arccos u1))
        - (arccos u2 - sin (arccos u2) * cos (arccos u2))) \<le> (2 / pi) * (2 * (u2 - u1))"
    by (intro mult_left_mono) simp_all
  also have "\<dots> \<le> 1 * (2 * (u2 - u1))"
    using assms pi_ge_two by (intro mult_right_mono) simp_all
  finally show ?thesis using assms by (simp add: mtf_arccos algebra_simps)
qed

lemma mtf_lower_bound:
  assumes "0 \<le> u" "u \<le> 1"
  shows "(1 / 2) * ((1 - u) * sqrt (1 - u * u)) \<le> mtf u"
proof -
  have s: "sin (arccos u) = sqrt (1 - u * u)"
    using assms sin_arccos [of u] by (simp add: power2_eq_square)
  have "sin (arccos u) \<le> arccos u"
    using assms by (intro sin_x_le_x arccos_lbound) simp_all
  then have "sqrt (1 - u * u) - sqrt (1 - u * u) * u \<le> arccos u - sin (arccos u) * cos (arccos u)"
    using assms s by simp
  then have a: "(1 - u) * sqrt (1 - u * u) \<le> arccos u - sin (arccos u) * cos (arccos u)"
    by (simp add: algebra_simps)
  have nn: "0 \<le> (1 - u) * sqrt (1 - u * u)"
    using assms by (intro mult_nonneg_nonneg real_sqrt_ge_zero) (simp_all add: mult_le_one)
  have "1 / 2 \<le> 2 / pi" using pi_less_4 pi_gt_zero by (simp add: field_simps)
  then have "(1 / 2) * ((1 - u) * sqrt (1 - u * u)) \<le> (2 / pi) * ((1 - u) * sqrt (1 - u * u))"
    using nn by (intro mult_right_mono)
  also have "\<dots> \<le> (2 / pi) * (arccos u - sin (arccos u) * cos (arccos u))"
    using a by (intro mult_left_mono) simp_all
  finally show ?thesis using assms by (simp add: mtf_arccos)
qed

text \<open>
  Claim C4. On \<open>[0, 1]\<close> the transfer function is non-increasing, from \<open>mtf 0 = 1\<close>
  down to \<open>mtf 1 = 0\<close>.
\<close>

theorem mtf_nonincreasing:
  assumes "0 \<le> u1" "u1 \<le> u2" "u2 \<le> 1"
  shows "mtf u2 \<le> mtf u1 \<and> mtf 0 = 1 \<and> mtf 1 = 0"
  using assms mtf_antimono [of u1 u2] by (simp add: mtf_def)

theorem mtf_nonincreasing_witness: "mtf (3 / 4) \<le> mtf (1 / 4) \<and> mtf 0 = 1 \<and> mtf 1 = 0"
  using mtf_nonincreasing [of "1 / 4" "3 / 4"] by simp

section \<open>Rounding\<close>

lemma toFixed_nonneg:
  "0 \<le> x \<Longrightarrow> toFixed d x = of_int \<lfloor>x * 10 ^ d + 1 / 2\<rfloor> / 10 ^ d"
  by (simp add: toFixed_def)

lemma toFixed_mono:
  assumes "x \<le> y"
  shows "toFixed d x \<le> toFixed d y"
proof -
  consider "0 \<le> x" | "x < 0" "0 \<le> y" | "y < 0" using assms by linarith
  then show ?thesis
  proof cases
    case 1
    then have "0 \<le> y" using assms by simp
    moreover have "\<lfloor>x * 10 ^ d + 1 / 2\<rfloor> \<le> \<lfloor>y * 10 ^ d + 1 / 2\<rfloor>"
      using assms by (intro floor_mono) simp
    ultimately show ?thesis using 1 by (simp add: toFixed_def divide_right_mono)
  next
    case 2
    have "0 \<le> - x" "0 \<le> y" "(0::real) \<le> 10 ^ d" using 2 by simp_all
    then have "0 \<le> (- x) * 10 ^ d" "0 \<le> y * 10 ^ d"
      by (simp_all only: mult_nonneg_nonneg)
    then have "0 \<le> (- x) * 10 ^ d + 1 / 2" "0 \<le> y * 10 ^ d + 1 / 2" by linarith+
    then have "0 \<le> \<lfloor>(- x) * 10 ^ d + 1 / 2\<rfloor>" "0 \<le> \<lfloor>y * 10 ^ d + 1 / 2\<rfloor>"
      by (simp_all only: zero_le_floor)
    then have "0 \<le> \<lfloor>(- x) * 10 ^ d + 1 / 2\<rfloor>"
      by simp
    moreover have "0 \<le> \<lfloor>y * 10 ^ d + 1 / 2\<rfloor>" by fact
    ultimately have "toFixed d x \<le> 0" "0 \<le> toFixed d y"
      using 2 by (simp_all add: toFixed_def)
    then show ?thesis by simp
  next
    case 3
    then have "x < 0" using assms by simp
    moreover have "\<lfloor>(- y) * 10 ^ d + 1 / 2\<rfloor> \<le> \<lfloor>(- x) * 10 ^ d + 1 / 2\<rfloor>"
      using assms by (intro floor_mono) simp
    ultimately show ?thesis using 3 by (simp add: toFixed_def divide_right_mono)
  qed
qed

lemma toFixed_nonneg_value: "0 \<le> x \<Longrightarrow> 0 \<le> toFixed d x"
proof -
  assume x: "0 \<le> x"
  then have "0 \<le> x * 10 ^ d + 1 / 2" by simp
  then have "0 \<le> \<lfloor>x * 10 ^ d + 1 / 2\<rfloor>" by (simp only: zero_le_floor)
  then show ?thesis using x by (simp add: toFixed_def)
qed

lemma toFixed_error:
  assumes "0 \<le> x"
  shows "\<bar>toFixed d x - x\<bar> \<le> 1 / (2 * 10 ^ d)"
proof -
  let ?n = "\<lfloor>x * 10 ^ d + 1 / 2\<rfloor>"
  have "of_int ?n \<le> x * 10 ^ d + 1 / 2" "x * 10 ^ d + 1 / 2 < of_int ?n + 1"
    by linarith+
  then have "\<bar>of_int ?n - x * 10 ^ d\<bar> \<le> 1 / 2" by linarith
  then have "\<bar>of_int ?n - x * 10 ^ d\<bar> / 10 ^ d \<le> (1 / 2) / 10 ^ d"
    by (intro divide_right_mono) simp_all
  moreover have "(of_int ?n - x * 10 ^ d) / 10 ^ d = of_int ?n / 10 ^ d - x"
    by (simp add: diff_divide_distrib)
  then have "\<bar>of_int ?n - x * 10 ^ d\<bar> / \<bar>10 ^ d :: real\<bar> = \<bar>of_int ?n / 10 ^ d - x\<bar>"
    by (metis abs_divide)
  then have "\<bar>of_int ?n - x * 10 ^ d\<bar> / 10 ^ d = \<bar>of_int ?n / 10 ^ d - x\<bar>"
    by simp
  ultimately show ?thesis using assms by (simp add: toFixed_nonneg)
qed

lemma toFixed_6_inside:
  assumes "tolerance / 2 < x" "x < 1 - tolerance / 2"
  shows "1 / 1000000 \<le> toFixed 6 x \<and> toFixed 6 x \<le> 1 - 1 / 1000000"
proof -
  let ?n = "\<lfloor>x * 10 ^ 6 + 1 / 2\<rfloor>"
  have x0: "0 \<le> x" using assms by (simp add: tolerance_def)
  have "1 \<le> x * 10 ^ 6 + 1 / 2" using assms by (simp add: tolerance_def)
  then have lo: "1 \<le> ?n" by linarith
  have "x * 10 ^ 6 + 1 / 2 < 1000000" using assms by (simp add: tolerance_def)
  then have "?n < 1000000" by linarith
  then have hi: "?n \<le> 999999" by simp
  have "(1::real) \<le> of_int ?n" "(of_int ?n :: real) \<le> 999999"
    using lo hi by linarith+
  then show ?thesis using x0 by (simp add: toFixed_nonneg field_simps)
qed

lemma mtf_toFixed_close:
  assumes "tolerance / 2 < U" "U < 1 - tolerance / 2"
  shows "\<bar>mtf (toFixed 6 U) - mtf U\<bar> \<le> tolerance"
proof -
  define R where "R = toFixed 6 U"
  have R: "1 / 1000000 \<le> R" "R \<le> 1 - 1 / 1000000"
    using toFixed_6_inside [OF assms] by (simp_all add: R_def)
  have U: "0 \<le> U" "U \<le> 1" using assms by (simp_all add: tolerance_def)
  have e: "\<bar>R - U\<bar> \<le> 1 / (2 * 10 ^ 6)" unfolding R_def by (rule toFixed_error) fact
  show ?thesis
  proof (cases "R \<le> U")
    case True
    have "mtf U \<le> mtf R" using True R U by (intro mtf_antimono) simp_all
    moreover have "mtf R - mtf U \<le> 2 * (U - R)" using True R U by (intro mtf_lipschitz) simp_all
    moreover have "2 * (U - R) \<le> tolerance" using e True by (simp add: tolerance_def)
    ultimately show ?thesis unfolding R_def [symmetric] by simp
  next
    case False
    then have le: "U \<le> R" by simp
    have "mtf R \<le> mtf U" using le R U by (intro mtf_antimono) simp_all
    moreover have "mtf U - mtf R \<le> 2 * (R - U)" using le R U by (intro mtf_lipschitz) simp_all
    moreover have "2 * (R - U) \<le> tolerance" using e le by (simp add: tolerance_def)
    ultimately show ?thesis unfolding R_def [symmetric] by simp
  qed
qed

section \<open>What the loop returns\<close>

text \<open>
  The loop keeps \<open>targetMtf < m low\<close> and \<open>m high \<le> targetMtf\<close>, and its \<open>u\<close> is a
  midpoint of an interval wider than the tolerance inside \<open>[0, 1]\<close>. It leaves either
  through \<^verbatim>\<open>break\<close> or with an interval no wider than the tolerance around \<open>u\<close>.
\<close>

lemma bisection_between:
  "low \<le> u \<Longrightarrow> u \<le> high \<Longrightarrow>
   low \<le> fst (bisection m targetMtf low high u i) \<and>
   fst (bisection m targetMtf low high u i) \<le> high"
proof (induction m targetMtf low high u i rule: bisection.induct)
  case (1 m targetMtf low high u i)
  let ?u' = "(low + high) / 2"
  show ?case
  proof (cases "high - low > tolerance \<and> i < maxIterations")
    case False
    then show ?thesis using "1.prems" by (subst (1 2) bisection.simps) auto
  next
    case True
    have m: "low \<le> ?u'" "?u' \<le> high" using "1.prems" by simp_all
    show ?thesis
      using True m "1.IH"(1) [OF True refl refl _ _ order_refl m(2)]
        "1.IH"(2) [OF True refl refl _ _ m(1) order_refl]
      by (subst (1 2) bisection.simps) (auto simp add: Let_def)
  qed
qed

lemma bisection_bracket:
  assumes "targetMtf < m low" "m high \<le> targetMtf" "0 \<le> low" "high \<le> 1"
    and "high - low = 1 / 2 ^ i"
    and "tolerance / 2 < u" "u < 1 - tolerance / 2" "low \<le> u" "u \<le> high"
  shows "tolerance / 2 < fst (bisection m targetMtf low high u i) \<and>
         fst (bisection m targetMtf low high u i) < 1 - tolerance / 2 \<and>
         (\<bar>m (fst (bisection m targetMtf low high u i)) - targetMtf\<bar> < tolerance \<or>
          (\<exists>l h. 0 \<le> l \<and> l \<le> fst (bisection m targetMtf low high u i) \<and>
                 fst (bisection m targetMtf low high u i) \<le> h \<and> h \<le> 1 \<and>
                 h - l \<le> tolerance \<and> targetMtf < m l \<and> m h \<le> targetMtf))"
  using assms
proof (induction m targetMtf low high u i rule: bisection.induct)
  case (1 m targetMtf low high u i)
  let ?u' = "(low + high) / 2"
  show ?case
  proof (cases "high - low > tolerance \<and> i < maxIterations")
    case False
    have "high - low \<le> tolerance"
    proof (cases "high - low > tolerance")
      case True
      with False have "20 \<le> i" by (simp add: maxIterations_def)
      then show ?thesis using "1.prems"(5) width_le_tolerance by simp
    qed simp
    then have "\<exists>l h. 0 \<le> l \<and> l \<le> u \<and> u \<le> h \<and> h \<le> 1 \<and>
                 h - l \<le> tolerance \<and> targetMtf < m l \<and> m h \<le> targetMtf"
      using "1.prems" by blast
    moreover have "bisection m targetMtf low high u i = (u, i)"
      using False by (subst bisection.simps) auto
    ultimately show ?thesis using "1.prems" by simp
  next
    case True
    have w: "high - ?u' = 1 / 2 ^ (i + 1)" "?u' - low = 1 / 2 ^ (i + 1)"
      using "1.prems"(5) by (simp_all add: field_simps)
    have u'1: "tolerance / 2 < ?u'" using True "1.prems"(3) by simp
    have u'2: "?u' < 1 - tolerance / 2" using True "1.prems"(4) by simp
    have u'3: "low \<le> ?u'" "?u' \<le> high" using True by (simp_all add: tolerance_def)
    consider (brk) "\<bar>m ?u' - targetMtf\<bar> < tolerance"
      | (up) "\<not> \<bar>m ?u' - targetMtf\<bar> < tolerance" "m ?u' > targetMtf"
      | (down) "\<not> \<bar>m ?u' - targetMtf\<bar> < tolerance" "\<not> m ?u' > targetMtf"
      by blast
    then show ?thesis
    proof cases
      case brk
      then have "bisection m targetMtf low high u i = (?u', i)"
        using True by (subst bisection.simps) (simp add: Let_def)
      then show ?thesis using brk u'1 u'2 by simp
    next
      case up
      then have eq: "bisection m targetMtf low high u i
                 = bisection m targetMtf ?u' high ?u' (i + 1)"
        using True by (subst bisection.simps) (simp add: Let_def)
      have "0 \<le> ?u'" using u'3 "1.prems"(3) by simp
      from "1.IH"(1) [OF True refl refl up(1) up(2) up(2) "1.prems"(2) this "1.prems"(4)
          w(1) u'1 u'2 order_refl u'3(2)]
      show ?thesis unfolding eq .
    next
      case down
      then have eq: "bisection m targetMtf low high u i
                 = bisection m targetMtf low ?u' ?u' (i + 1)"
        using True by (subst bisection.simps) (simp add: Let_def)
      have le: "m ?u' \<le> targetMtf" using down(2) by simp
      have "?u' \<le> 1" using u'3 "1.prems"(4) by simp
      from "1.IH"(2) [OF True refl refl down(1) down(2) "1.prems"(1) le "1.prems"(3) this
          w(2) u'1 u'2 u'3(1) order_refl]
      show ?thesis unfolding eq .
    qed
  qed
qed

lemma bisection_mtf_result:
  assumes "0 < targetMtf" "targetMtf < 1"
  shows "tolerance / 2 < fst (bisection mtf targetMtf 0 1 (1 / 2) 0) \<and>
         fst (bisection mtf targetMtf 0 1 (1 / 2) 0) < 1 - tolerance / 2 \<and>
         \<bar>mtf (fst (bisection mtf targetMtf 0 1 (1 / 2) 0)) - targetMtf\<bar> \<le> 2 * tolerance"
proof -
  define U where "U = fst (bisection mtf targetMtf 0 1 (1 / 2) 0)"
  have b: "tolerance / 2 < U \<and> U < 1 - tolerance / 2 \<and>
         (\<bar>mtf U - targetMtf\<bar> < tolerance \<or>
          (\<exists>l h. 0 \<le> l \<and> l \<le> U \<and> U \<le> h \<and> h \<le> 1 \<and>
                 h - l \<le> tolerance \<and> targetMtf < mtf l \<and> mtf h \<le> targetMtf))"
    unfolding U_def
    using assms by (intro bisection_bracket) (simp_all add: mtf_def tolerance_def)
  have "\<bar>mtf U - targetMtf\<bar> \<le> 2 * tolerance"
  proof (cases "\<bar>mtf U - targetMtf\<bar> < tolerance")
    case True
    then show ?thesis by (simp add: tolerance_def)
  next
    case False
    with b obtain l h where lh: "0 \<le> l" "l \<le> U" "U \<le> h" "h \<le> 1"
      "h - l \<le> tolerance" "targetMtf < mtf l" "mtf h \<le> targetMtf"
      by blast
    have 1: "mtf U \<le> mtf l" using lh by (intro mtf_antimono) simp_all
    have 2: "mtf h \<le> mtf U" using lh by (intro mtf_antimono) simp_all
    have 3: "mtf l - mtf h \<le> 2 * (h - l)" using lh by (intro mtf_lipschitz) simp_all
    have 4: "mtf l - mtf h \<le> 2 * tolerance" using 3 lh(5) by simp
    have "mtf U - targetMtf \<le> 2 * tolerance" using 1 4 lh(7) by simp
    moreover have "targetMtf - mtf U \<le> 2 * tolerance" using 2 4 lh(6) by simp
    ultimately show ?thesis by (simp add: abs_le_iff)
  qed
  with b show ?thesis unfolding U_def by simp
qed

text \<open>
  Claim C1. For valid inputs with the contrast strictly between 0 and 100 the returned
  \<^verbatim>\<open>normalizedFrequency\<close> \<open>u\<close> lies strictly between 0 and 1, the transfer function
  \<open>(2 / \<pi>) (acos u - u \<surd>(1 - u\<^sup>2))\<close> at \<open>u\<close> is within \<open>10\<^sup>-\<^sup>3\<close> of
  \<open>contrastPercent / 100\<close>, and the returned \<^verbatim>\<open>iterations\<close> is at most 100.
\<close>

theorem convergence_within_tolerance:
  assumes "0 < fNumber" "0 < contrastPercent" "contrastPercent < 100" "0 < wavelengthNm"
  shows "\<exists>r u n. calculateDiffractionLimit fNumber contrastPercent wavelengthNm = Inr r \<and>
           normalizedFrequency r = Some u \<and> iterations r = Some n \<and>
           0 < u \<and> u < 1 \<and>
           \<bar>(2 / pi) * (arccos u - u * sqrt (1 - u * u)) - contrastPercent / 100\<bar> < 1 / 1000 \<and>
           mtf u = (2 / pi) * (arccos u - u * sqrt (1 - u * u)) \<and>
           n \<le> 100"
proof -
  define T where "T = contrastPercent / 100"
  define U where "U = fst (bisection mtf T 0 1 (1 / 2) 0)"
  define N where "N = snd (bisection mtf T 0 1 (1 / 2) 0)"
  define R where "R = toFixed 6 U"
  have T: "0 < T" "T < 1" using assms by (simp_all add: T_def)
  have b: "tolerance / 2 < U" "U < 1 - tolerance / 2" "\<bar>mtf U - T\<bar> \<le> 2 * tolerance"
    using bisection_mtf_result [OF T] by (simp_all add: U_def)
  have R: "1 / 1000000 \<le> R" "R \<le> 1 - 1 / 1000000"
    using toFixed_6_inside [OF b(1,2)] by (simp_all add: R_def)
  then have R01: "0 < R" "R < 1" by simp_all
  have "\<bar>mtf R - mtf U\<bar> \<le> tolerance"
    unfolding R_def using b(1,2) by (rule mtf_toFixed_close)
  then have "\<bar>mtf R - T\<bar> \<le> 3 * tolerance" using b(3) by simp
  then have close: "\<bar>mtf R - T\<bar> < 1 / 1000" by (simp add: tolerance_def)
  have f: "mtf R = (2 / pi) * (arccos R - R * sqrt (1 - R * R))"
    using R01 by (simp add: mtf_def)
  have "N \<le> 20" unfolding N_def by (rule bisection_iterations_le_20) simp_all
  then have N: "N \<le> 100" by simp
  have "calculateDiffractionLimit fNumber contrastPercent wavelengthNm =
      Inr \<lparr>spatialFrequency = toFixed 1 (U * (1 / (wavelengthNm * (1 / 1000000) * fNumber))),
           cutoffFrequency = toFixed 1 (1 / (wavelengthNm * (1 / 1000000) * fNumber)),
           normalizedFrequency = Some R, iterations = Some N\<rparr>"
    using assms by (simp add: calc_valid_cases U_def N_def R_def T_def)
  then show ?thesis using R01 close f N unfolding T_def by simp
qed

theorem convergence_within_tolerance_witness:
  "\<exists>r u n. calculateDiffractionLimit 8 10 520 = Inr r \<and>
           normalizedFrequency r = Some u \<and> iterations r = Some n \<and>
           0 < u \<and> u < 1 \<and>
           \<bar>(2 / pi) * (arccos u - u * sqrt (1 - u * u)) - 10 / 100\<bar> < 1 / 1000 \<and>
           mtf u = (2 / pi) * (arccos u - u * sqrt (1 - u * u)) \<and>
           n \<le> 100"
  using convergence_within_tolerance [of 8 10 520] by simp

text \<open>
  Claim C10. For valid inputs with the contrast strictly between 0 and 100 the loop body
  is entered at most 20 times, and the returned \<^verbatim>\<open>iterations\<close> is at most 20, below
  \<^verbatim>\<open>maxIterations\<close>.
\<close>

theorem iterations_at_most_20:
  assumes "0 < fNumber" "0 < contrastPercent" "contrastPercent < 100" "0 < wavelengthNm"
  shows "\<exists>r n. calculateDiffractionLimit fNumber contrastPercent wavelengthNm = Inr r \<and>
           iterations r = Some n \<and> n \<le> 20 \<and> n < maxIterations \<and>
           bodyRuns mtf (contrastPercent / 100) 0 1 0 \<le> 20"
proof -
  define N where "N = snd (bisection mtf (contrastPercent / 100) 0 1 (1 / 2) 0)"
  have N: "N \<le> 20" unfolding N_def by (rule bisection_iterations_le_20) simp_all
  have B: "bodyRuns mtf (contrastPercent / 100) 0 1 0 + 0 \<le> 20"
    by (rule bodyRuns_le) simp_all
  have "\<exists>r. calculateDiffractionLimit fNumber contrastPercent wavelengthNm = Inr r \<and>
             iterations r = Some N"
    using assms by (simp add: calc_valid_cases N_def)
  then show ?thesis using N B by (auto simp add: maxIterations_def)
qed

theorem iterations_at_most_20_witness:
  "\<exists>r n. calculateDiffractionLimit 8 10 520 = Inr r \<and>
           iterations r = Some n \<and> n \<le> 20 \<and> n < maxIterations \<and>
           bodyRuns mtf (10 / 100) 0 1 0 \<le> 20"
  using iterations_at_most_20 [of 8 10 520] by simp

text \<open>
  Claim C9. For valid inputs the returned \<^verbatim>\<open>spatialFrequency\<close> is at most the returned
  \<^verbatim>\<open>cutoffFrequency\<close>. After the loop \<open>u\<close> is strictly between 0 and 1, so
  \<open>u * cutoffFrequency\<close> is below the cutoff and rounding both keeps the order; the early
  returns give 0 and the cutoff itself.
\<close>

theorem spatialFrequency_le_cutoffFrequency:
  assumes "0 < fNumber" "0 \<le> contrastPercent" "contrastPercent \<le> 100" "0 < wavelengthNm"
  shows "(\<exists>r. calculateDiffractionLimit fNumber contrastPercent wavelengthNm = Inr r \<and>
              spatialFrequency r \<le> cutoffFrequency r) \<and>
         (0 < contrastPercent \<and> contrastPercent < 100 \<longrightarrow>
            0 < fst (bisection mtf (contrastPercent / 100) 0 1 (1 / 2) 0) \<and>
            fst (bisection mtf (contrastPercent / 100) 0 1 (1 / 2) 0) < 1 \<and>
            fst (bisection mtf (contrastPercent / 100) 0 1 (1 / 2) 0)
              * (1 / (wavelengthNm * (1 / 1000000) * fNumber))
              < 1 / (wavelengthNm * (1 / 1000000) * fNumber))"
proof -
  define C where "C = 1 / (wavelengthNm * (1 / 1000000) * fNumber)"
  define U where "U = fst (bisection mtf (contrastPercent / 100) 0 1 (1 / 2) 0)"
  have C: "0 < C" using assms by (simp add: C_def)
  have inner: "0 < U \<and> U < 1 \<and> U * C < C" if "0 < contrastPercent" "contrastPercent < 100"
  proof -
    have "0 < contrastPercent / 100" "contrastPercent / 100 < 1" using that by simp_all
    from bisection_mtf_result [OF this]
    have "tolerance / 2 < U" "U < 1 - tolerance / 2" by (simp_all add: U_def)
    then have "0 < U" "U < 1" by (simp_all add: tolerance_def)
    then show ?thesis using C by simp
  qed
  have "\<exists>r. calculateDiffractionLimit fNumber contrastPercent wavelengthNm = Inr r \<and>
              spatialFrequency r \<le> cutoffFrequency r"
  proof (cases "0 < contrastPercent \<and> contrastPercent < 100")
    case True
    then have "U * C \<le> C" using inner by simp
    then have "toFixed 1 (U * C) \<le> toFixed 1 C" by (rule toFixed_mono)
    then show ?thesis using assms True by (simp add: calc_valid_cases U_def C_def)
  next
    case False
    then show ?thesis using assms C by (auto simp add: calc_valid_cases C_def)
  qed
  then show ?thesis using inner unfolding U_def C_def by blast
qed

theorem spatialFrequency_le_cutoffFrequency_witness:
  "(\<exists>r. calculateDiffractionLimit 8 10 520 = Inr r \<and>
              spatialFrequency r \<le> cutoffFrequency r) \<and>
   0 < fst (bisection mtf (10 / 100) 0 1 (1 / 2) 0) \<and>
   fst (bisection mtf (10 / 100) 0 1 (1 / 2) 0) < 1 \<and>
   (\<exists>r. calculateDiffractionLimit 8 0 520 = Inr r \<and>
              spatialFrequency r \<le> cutoffFrequency r) \<and>
   (\<exists>r. calculateDiffractionLimit 8 100 520 = Inr r \<and>
              spatialFrequency r \<le> cutoffFrequency r)"
  using spatialFrequency_le_cutoffFrequency [of 8 10 520] spatialFrequency_le_cutoffFrequency [of 8 0 520] spatialFrequency_le_cutoffFrequency [of 8 100 520] by simp

section \<open>Spatial frequency against contrast\<close>

text \<open>
  Two runs of the loop on targets \<open>t1 \<le> t2\<close> take the same branch until one of them
  breaks or they part, and when they part the run on \<open>t1\<close> is the one that moves
  \<open>low\<close> up: the larger target never ends at the larger \<open>u\<close>. This holds for every
  closure \<open>m\<close>. After rounding, the spatial frequency is non-increasing in the contrast
  from any contrast above 0 on.
\<close>

lemma bisection_antimono_target:
  "t1 \<le> t2 \<Longrightarrow>
   fst (bisection m t2 low high u i) \<le> fst (bisection m t1 low high u i)"
proof (induction m t1 low high u i rule: bisection.induct)
  case (1 m t1 low high u i)
  let ?u' = "(low + high) / 2"
  show ?case
  proof (cases "high - low > tolerance \<and> i < maxIterations")
    case False
    then have "bisection m t low high u i = (u, i)" for t
      by (subst bisection.simps) auto
    then show ?thesis by simp
  next
    case True
    then have m: "low \<le> ?u'" "?u' \<le> high" by (simp_all add: tolerance_def)
    have up: "?u' \<le> fst (bisection m t ?u' high ?u' (i + 1))" for t
      using bisection_between [of ?u' ?u' high m t "i + 1"] m by simp
    have down: "fst (bisection m t low ?u' ?u' (i + 1)) \<le> ?u'" for t
      using bisection_between [of low ?u' ?u' m t "i + 1"] m by simp
    have e: "bisection m t low high u i =
       (if \<bar>m ?u' - t\<bar> < tolerance then (?u', i)
        else if m ?u' > t then bisection m t ?u' high ?u' (i + 1)
        else bisection m t low ?u' ?u' (i + 1))" for t
      using True by (subst bisection.simps) (simp add: Let_def)
    consider (brk) "\<bar>m ?u' - t1\<bar> < tolerance"
      | (right) "\<not> \<bar>m ?u' - t1\<bar> < tolerance" "m ?u' > t1"
      | (left) "\<not> \<bar>m ?u' - t1\<bar> < tolerance" "\<not> m ?u' > t1"
      by blast
    then show ?thesis
    proof cases
      case brk
      then have "\<bar>m ?u' - t2\<bar> < tolerance \<or> \<not> m ?u' > t2"
        using "1.prems" by linarith
      then show ?thesis using brk down [of t2] by (auto simp add: e)
    next
      case right
      show ?thesis
      proof (cases "\<not> \<bar>m ?u' - t2\<bar> < tolerance \<and> m ?u' > t2")
        case True
        then have "bisection m t2 low high u i = bisection m t2 ?u' high ?u' (i + 1)"
          by (simp only: e if_False if_True)
        moreover have "bisection m t1 low high u i = bisection m t1 ?u' high ?u' (i + 1)"
          using right by (simp only: e if_False if_True)
        ultimately show ?thesis
          using "1.IH"(1) [OF \<open>high - low > tolerance \<and> i < maxIterations\<close> refl refl
              right(1) right(2) "1.prems"]
          by simp
      next
        case False
        have "fst (bisection m t2 low high u i) \<le> ?u'"
          using False down [of t2] by (auto simp add: e)
        moreover have "?u' \<le> fst (bisection m t1 low high u i)"
          using right up [of t1] by (simp add: e)
        ultimately show ?thesis by simp
      qed
    next
      case left
      then have "\<not> \<bar>m ?u' - t2\<bar> < tolerance" "\<not> m ?u' > t2"
        using "1.prems" by linarith+
      then have "bisection m t2 low high u i = bisection m t2 low ?u' ?u' (i + 1)"
        by (simp only: e if_False)
      moreover have "bisection m t1 low high u i = bisection m t1 low ?u' ?u' (i + 1)"
        using left by (simp only: e if_False)
      ultimately show ?thesis
        using "1.IH"(2) [OF True refl refl left(1) left(2) "1.prems"]
        by simp
    qed
  qed
qed

lemma spatialFrequency_antimono_above_zero:
  assumes "0 < fNumber" "0 < wavelengthNm" "0 < c1" "c1 \<le> c2" "c2 \<le> 100"
  shows "spatialFrequency (projr (calculateDiffractionLimit fNumber c2 wavelengthNm))
       \<le> spatialFrequency (projr (calculateDiffractionLimit fNumber c1 wavelengthNm))"
proof -
  define C where "C = 1 / (wavelengthNm * (1 / 1000000) * fNumber)"
  have C: "0 < C" using assms by (simp add: C_def)
  have c1: "0 \<le> c1" "c1 \<le> 100" using assms by simp_all
  show ?thesis
  proof (cases "c2 < 100")
    case True
    have "fst (bisection mtf (c2 / 100) 0 1 (1 / 2) 0)
        \<le> fst (bisection mtf (c1 / 100) 0 1 (1 / 2) 0)"
      using assms by (intro bisection_antimono_target) simp
    then have "fst (bisection mtf (c2 / 100) 0 1 (1 / 2) 0) * C
        \<le> fst (bisection mtf (c1 / 100) 0 1 (1 / 2) 0) * C"
      using C by simp
    then have "toFixed 1 (fst (bisection mtf (c2 / 100) 0 1 (1 / 2) 0) * C)
        \<le> toFixed 1 (fst (bisection mtf (c1 / 100) 0 1 (1 / 2) 0) * C)"
      by (rule toFixed_mono)
    then show ?thesis using assms True by (simp add: calc_valid_cases C_def)
  next
    case False
    then have c2: "c2 = 100" using assms by simp
    show ?thesis
    proof (cases "c1 < 100")
      case True
      have "0 \<le> fst (bisection mtf (c1 / 100) 0 1 (1 / 2) 0)"
        using bisection_between [of 0 "1 / 2" 1 mtf "c1 / 100" 0] by simp
      then have "0 \<le> fst (bisection mtf (c1 / 100) 0 1 (1 / 2) 0) * C" using C by simp
      then have "0 \<le> toFixed 1 (fst (bisection mtf (c1 / 100) 0 1 (1 / 2) 0) * C)"
        by (rule toFixed_nonneg_value)
      then show ?thesis using assms True c2 by (simp add: calc_valid_cases C_def)
    next
      case False
      then have "c1 = 100" using assms by simp
      then show ?thesis using c2 by simp
    qed
  qed
qed

text \<open>
  At f/16 and a wavelength of 750000 nm the cutoff frequency is \<open>1 / 12\<close>. With a target
  of \<open>0.05\<close> the first two midpoints \<open>1 / 2\<close> and \<open>3 / 4\<close> have a transfer above the
  target, so the loop ends with \<open>u\<close> in \<open>[3 / 4, 1]\<close>.
\<close>

lemma mtf_half_bound: "1 / 5 \<le> mtf (1 / 2)"
proof -
  have "(86 / 100) \<le> sqrt (3 / 4 :: real)" by (rule real_le_rsqrt) (simp add: power2_eq_square)
  then have "(1 / 2) * ((1 - 1 / 2) * (86 / 100)) \<le> (1 / 2) * ((1 - 1 / 2) * sqrt (1 - (1 / 2) * (1 / 2 :: real)))"
    by simp
  also have "\<dots> \<le> mtf (1 / 2)" by (rule mtf_lower_bound) simp_all
  finally show ?thesis by simp
qed

lemma mtf_three_quarters_bound: "2 / 25 \<le> mtf (3 / 4)"
proof -
  have "(66 / 100) \<le> sqrt (7 / 16 :: real)" by (rule real_le_rsqrt) (simp add: power2_eq_square)
  then have "(1 / 2) * ((1 - 3 / 4) * (66 / 100)) \<le> (1 / 2) * ((1 - 3 / 4) * sqrt (1 - (3 / 4) * (3 / 4 :: real)))"
    by simp
  also have "\<dots> \<le> mtf (3 / 4)" by (rule mtf_lower_bound) simp_all
  finally show ?thesis by simp
qed

lemma bisection_five_percent:
  "3 / 4 \<le> fst (bisection mtf (5 / 100) 0 1 (1 / 2) 0) \<and>
   fst (bisection mtf (5 / 100) 0 1 (1 / 2) 0) \<le> 1"
proof -
  have a: "\<not> \<bar>mtf (1 / 2) - 5 / 100\<bar> < tolerance" "mtf (1 / 2) > 5 / 100"
    using mtf_half_bound by (simp_all add: tolerance_def)
  have b: "\<not> \<bar>mtf (3 / 4) - 5 / 100\<bar> < tolerance" "mtf (3 / 4) > 5 / 100"
    using mtf_three_quarters_bound by (simp_all add: tolerance_def)
  have "bisection mtf (5 / 100) 0 1 (1 / 2) 0 = bisection mtf (5 / 100) (1 / 2) 1 (1 / 2) (0 + 1)"
    using a by (subst bisection.simps) (simp add: Let_def tolerance_def maxIterations_def)
  also have "\<dots> = bisection mtf (5 / 100) (3 / 4) 1 (3 / 4) (0 + 1 + 1)"
    using b by (subst bisection.simps) (simp add: Let_def tolerance_def maxIterations_def)
  finally show ?thesis using bisection_between [of "3 / 4" "3 / 4" 1 mtf "5 / 100" "0 + 1 + 1"] by simp
qed

text \<open>
  Claim C7, at contrast 0. With f/16 and 750000 nm, contrast 0 returns the unrounded
  cutoff \<open>1 / 12 = 0.0833...\<close> as spatial frequency, and contrast 5 returns
  \<open>u / 12\<close> rounded to one decimal, which is \<open>0.1\<close>: the spatial frequency is larger at
  the larger contrast.
\<close>

theorem spatialFrequency_rises_from_contrast_0_to_5:
  "calculateDiffractionLimit 16 0 750000 =
     Inr \<lparr>spatialFrequency = 1 / 12, cutoffFrequency = 1 / 12,
          normalizedFrequency = None, iterations = None\<rparr> \<and>
   \<not> isl (calculateDiffractionLimit 16 5 750000) \<and>
   spatialFrequency (projr (calculateDiffractionLimit 16 5 750000)) = 1 / 10"
proof -
  define U where "U = fst (bisection mtf (5 / 100) 0 1 (1 / 2) 0)"
  have U: "3 / 4 \<le> U" "U \<le> 1" using bisection_five_percent by (simp_all add: U_def)
  have "1 \<le> U * (1 / 12) * 10 ^ 1 + 1 / 2" "U * (1 / 12) * 10 ^ 1 + 1 / 2 < 2"
    using U by simp_all
  then have "\<lfloor>U * (1 / 12) * 10 ^ 1 + 1 / 2\<rfloor> = 1" by linarith
  then have r: "toFixed 1 (U * (1 / 12)) = 1 / 10" using U by (simp add: toFixed_def)
  have "calculateDiffractionLimit 16 5 750000 =
     Inr \<lparr>spatialFrequency = toFixed 1 (U * (1 / 12)), cutoffFrequency = toFixed 1 (1 / 12),
          normalizedFrequency = Some (toFixed 6 U),
          iterations = Some (snd (bisection mtf (5 / 100) 0 1 (1 / 2) 0))\<rparr>"
    by (simp add: calc_valid_cases U_def)
  then show ?thesis using r by (simp add: calc_valid_cases)
qed

section \<open>Calls\<close>

text \<open>
  Read over its variables, the function finds every name it mentions in its own frame
  and writes to its own frame only: whatever the top level holds, a call ends with the
  outcome of \<^const>\<open>calculateDiffractionLimit\<close> and with the top level as it found it.
\<close>

lemma seq_rd:
  "seq (rd x) k s = (case frame s x of Some v \<Rightarrow> k v s
                      | None \<Rightarrow> (case script s x of Some v \<Rightarrow> k v s
                                  | None \<Rightarrow> (Inl (ReferenceError x), s)))"
  by (simp add: seq_def rd_def lookup_def split: option.splits)

lemma seq_decl:
  "seq (decl x v) k s = k () (s\<lparr>frame := (frame s)(x \<mapsto> v)\<rparr>)"
  by (simp add: seq_def decl_def)

lemma seq_asg:
  "seq (asg x v) k s =
     (if frame s x \<noteq> None then k () (s\<lparr>frame := (frame s)(x \<mapsto> v)\<rparr>)
      else k () (s\<lparr>script := (script s)(x \<mapsto> v)\<rparr>))"
  by (simp add: seq_def asg_def)

lemma seq_assoc:
  "seq (seq p k) k' = seq p (\<lambda>v. seq (k v) k')"
  by (rule ext) (simp add: seq_def split: prod.splits sum.splits)

lemma loop_guard_frame:
  assumes "frame s ''low'' = Some low" "frame s ''high'' = Some high"
    "frame s ''iterations'' = Some (real i)" "frame s ''tolerance'' = Some tolerance"
    "frame s ''maxIterations'' = Some (real maxIterations)"
  shows "loop_guard s = (Inr (high - low > tolerance \<and> i < maxIterations), s)"
  using assms by (simp add: loop_guard_def seq_rd ret_def)

lemma loop_body_frame:
  assumes "frame s ''low'' = Some low" "frame s ''high'' = Some high" "frame s ''u'' = Some u"
    "frame s ''iterations'' = Some (real i)" "frame s ''tolerance'' = Some tolerance"
    "frame s ''targetMtf'' = Some t"
  shows "loop_body s =
     (if \<bar>mtf ((low + high) / 2) - t\<bar> < tolerance
      then (Inr Break, s\<lparr>frame := (frame s)(''u'' \<mapsto> (low + high) / 2,
                                             ''currentMtf'' \<mapsto> mtf ((low + high) / 2))\<rparr>)
      else if mtf ((low + high) / 2) > t
      then (Inr Next, s\<lparr>frame := (frame s)(''u'' \<mapsto> (low + high) / 2,
                                            ''currentMtf'' \<mapsto> mtf ((low + high) / 2),
                                            ''low'' \<mapsto> (low + high) / 2,
                                            ''iterations'' \<mapsto> real i + 1)\<rparr>)
      else (Inr Next, s\<lparr>frame := (frame s)(''u'' \<mapsto> (low + high) / 2,
                                            ''currentMtf'' \<mapsto> mtf ((low + high) / 2),
                                            ''high'' \<mapsto> (low + high) / 2,
                                            ''iterations'' \<mapsto> real i + 1)\<rparr>))"
  using assms
  by (simp add: loop_body_def seq_assoc seq_rd seq_decl seq_asg asg_def ret_def)

lemma while_loop_frame:
  assumes "m = mtf" "frame s ''low'' = Some low" "frame s ''high'' = Some high" "frame s ''u'' = Some u"
    "frame s ''iterations'' = Some (real i)" "frame s ''tolerance'' = Some tolerance"
    "frame s ''maxIterations'' = Some (real maxIterations)" "frame s ''targetMtf'' = Some t"
  shows "\<exists>s'. while_loop s = (Inr (), s') \<and> script s' = script s \<and>
              frame s' ''u'' = Some (fst (bisection m t low high u i)) \<and>
              frame s' ''iterations'' = Some (real (snd (bisection m t low high u i))) \<and>
              frame s' ''cutoffFrequency'' = frame s ''cutoffFrequency''"
  using assms
proof (induction m t low high u i arbitrary: s rule: bisection.induct)
  case (1 m t low high u i)
  let ?u' = "(low + high) / 2"
  note m = "1.prems"(1)
  note g = loop_guard_frame [OF "1.prems"(2,3,5,6,7)]
  note b = loop_body_frame [OF "1.prems"(2,3,4,5,6,8)]
  show ?case
  proof (cases "high - low > tolerance \<and> i < maxIterations")
    case False
    then have "loop_guard s = (Inr False, s)" using g by simp
    then have "while_loop s = (Inr (), s)"
      by (subst while_loop.simps) simp
    moreover have "bisection m t low high u i = (u, i)"
      using False by (subst bisection.simps) auto
    ultimately show ?thesis using "1.prems" by simp
  next
    case True
    then have gt: "loop_guard s = (Inr True, s)" using g by simp
    consider (brk) "\<bar>m ?u' - t\<bar> < tolerance"
      | (up) "\<not> \<bar>m ?u' - t\<bar> < tolerance" "m ?u' > t"
      | (down) "\<not> \<bar>m ?u' - t\<bar> < tolerance" "\<not> m ?u' > t"
      by blast
    then show ?thesis
    proof cases
      case brk
      then have "while_loop s = (Inr (), s\<lparr>frame := (frame s)(''u'' \<mapsto> ?u',
                                             ''currentMtf'' \<mapsto> m ?u')\<rparr>)"
        using brk by (subst while_loop.simps) (simp add: gt b m)
      moreover have "bisection m t low high u i = (?u', i)"
        using True brk by (subst bisection.simps) (simp add: Let_def m)
      ultimately show ?thesis using "1.prems" by simp
    next
      case up
      let ?s2 = "s\<lparr>frame := (frame s)(''u'' \<mapsto> ?u', ''currentMtf'' \<mapsto> m ?u',
                                      ''low'' \<mapsto> ?u', ''iterations'' \<mapsto> real i + 1)\<rparr>"
      have w: "while_loop s = while_loop ?s2"
        using up by (subst while_loop.simps) (simp add: gt b m)
      have e: "bisection m t low high u i = bisection m t ?u' high ?u' (i + 1)"
        using True up by (subst bisection.simps) (simp add: Let_def m)
      have "\<exists>s'. while_loop ?s2 = (Inr (), s') \<and> script s' = script ?s2 \<and>
              frame s' ''u'' = Some (fst (bisection m t ?u' high ?u' (i + 1))) \<and>
              frame s' ''iterations'' = Some (real (snd (bisection m t ?u' high ?u' (i + 1)))) \<and>
              frame s' ''cutoffFrequency'' = frame ?s2 ''cutoffFrequency''"
        using "1.prems" by (intro "1.IH"(1) [OF True refl refl up(1) up(2)]) simp_all
      then show ?thesis by (simp add: w e)
    next
      case down
      let ?s3 = "s\<lparr>frame := (frame s)(''u'' \<mapsto> ?u', ''currentMtf'' \<mapsto> m ?u',
                                      ''high'' \<mapsto> ?u', ''iterations'' \<mapsto> real i + 1)\<rparr>"
      have w: "while_loop s = while_loop ?s3"
        using down by (subst while_loop.simps) (simp add: gt b m)
      have e: "bisection m t low high u i = bisection m t low ?u' ?u' (i + 1)"
        using True down by (subst bisection.simps) (simp add: Let_def m)
      have "\<exists>s'. while_loop ?s3 = (Inr (), s') \<and> script s' = script ?s3 \<and>
              frame s' ''u'' = Some (fst (bisection m t low ?u' ?u' (i + 1))) \<and>
              frame s' ''iterations'' = Some (real (snd (bisection m t low ?u' ?u' (i + 1)))) \<and>
              frame s' ''cutoffFrequency'' = frame ?s3 ''cutoffFrequency''"
        using "1.prems" by (intro "1.IH"(2) [OF True refl refl down(1) down(2)]) simp_all
      then show ?thesis by (simp add: w e)
    qed
  qed
qed

lemma seq_while_loop_frame:
  assumes "frame s ''low'' = Some low" "frame s ''high'' = Some high" "frame s ''u'' = Some u"
    "frame s ''iterations'' = Some (real i)" "frame s ''tolerance'' = Some tolerance"
    "frame s ''maxIterations'' = Some (real maxIterations)" "frame s ''targetMtf'' = Some t"
    and "\<And>s'. script s' = script s \<Longrightarrow>
           frame s' ''u'' = Some (fst (bisection mtf t low high u i)) \<Longrightarrow>
           frame s' ''iterations'' = Some (real (snd (bisection mtf t low high u i))) \<Longrightarrow>
           frame s' ''cutoffFrequency'' = frame s ''cutoffFrequency'' \<Longrightarrow>
           P (k () s')"
  shows "P (seq while_loop k s)"
proof -
  from while_loop_frame [OF refl assms(1-7)]
  obtain s' where s': "while_loop s = (Inr (), s')" "script s' = script s"
    "frame s' ''u'' = Some (fst (bisection mtf t low high u i))"
    "frame s' ''iterations'' = Some (real (snd (bisection mtf t low high u i)))"
    "frame s' ''cutoffFrequency'' = frame s ''cutoffFrequency''"
    by blast
  have "seq while_loop k s = k () s'" using s'(1) by (simp add: seq_def)
  then show ?thesis using assms(8) [OF s'(2-5)] by simp
qed

lemma call_refines:
  "call g fNumber contrastPercent wavelengthNm =
     (map_sum Thrown id (calculateDiffractionLimit fNumber contrastPercent wavelengthNm), g)"
proof (cases "0 < fNumber \<and> 0 < contrastPercent \<and> contrastPercent < 100 \<and> 0 < wavelengthNm")
  case False
  then show ?thesis
    by (auto simp add: call_def calculateDiffractionLimit_body_def calculateDiffractionLimit_def
        seq_rd seq_decl throw_def ret_def Let_def not_less not_le)
next
  case True
  define R where "R = \<lparr>spatialFrequency =
                  toFixed 1 (fst (bisection mtf (contrastPercent / 100) 0 1 (1 / 2) 0)
                             * (1 / (wavelengthNm * (1 / 1000000) * fNumber))),
                cutoffFrequency = toFixed 1 (1 / (wavelengthNm * (1 / 1000000) * fNumber)),
                normalizedFrequency =
                  Some (toFixed 6 (fst (bisection mtf (contrastPercent / 100) 0 1 (1 / 2) 0))),
                iterations = Some (snd (bisection mtf (contrastPercent / 100) 0 1 (1 / 2) 0))\<rparr>"
  have c: "calculateDiffractionLimit fNumber contrastPercent wavelengthNm = Inr R"
    using True by (simp add: calc_valid_cases R_def)
  have "call g fNumber contrastPercent wavelengthNm = (Inr R, g)"
    unfolding call_def calculateDiffractionLimit_body_def
    using True
    apply (simp add: seq_rd seq_decl)
    apply (rule seq_while_loop_frame [where P = "\<lambda>x. (case x of (r, s) \<Rightarrow> (r, script s)) = (Inr R, g)"
          and low = 0 and high = 1 and u = "1 / 2" and i = 0 and t = "contrastPercent / 100"])
           apply (simp_all add: tolerance_def maxIterations_def)
    apply (simp add: seq_rd seq_decl ret_def R_def)
    done
  then show ?thesis by (simp add: c)
qed

text \<open>
  Claim C8. Two calls with the same arguments have the same outcome, the same record or
  the same error, whatever the variables of the script hold when each is made; and a
  call leaves the variables of the script as they were, so it changes the outcome of no
  other call.
\<close>

theorem calls_deterministic:
  "fst (call g1 fNumber contrastPercent wavelengthNm)
     = fst (call g2 fNumber contrastPercent wavelengthNm) \<and>
   snd (call g1 fNumber contrastPercent wavelengthNm) = g1 \<and>
   fst (call g1 fNumber contrastPercent wavelengthNm)
     = map_sum Thrown id (calculateDiffractionLimit fNumber contrastPercent wavelengthNm)"
  by (simp add: call_refines)

theorem calls_deterministic_witness:
  "fst (call Map.empty 8 10 520)
     = fst (call [''fNumber'' \<mapsto> 1, ''contrastPercent'' \<mapsto> 99, ''wavelengthNm'' \<mapsto> 1,
                  ''u'' \<mapsto> 0, ''iterations'' \<mapsto> 50] 8 10 520) \<and>
   snd (call [''wavelengthNm'' \<mapsto> 520] 0 50 520) = [''wavelengthNm'' \<mapsto> 520] \<and>
   fst (call Map.empty 0 50 520) = Inl (Thrown (Error ''f-number must be positive''))"
  using calls_deterministic [of Map.empty 8 10 520
      "[''fNumber'' \<mapsto> 1, ''contrastPercent'' \<mapsto> 99, ''wavelengthNm'' \<mapsto> 1,
        ''u'' \<mapsto> 0, ''iterations'' \<mapsto> 50]"]
    calculateDiffractionLimit_def [of 0 50 520]
    calls_deterministic [of "[''wavelengthNm'' \<mapsto> 520]" 0 50 520 Map.empty]
    calls_deterministic [of Map.empty 0 50 520 Map.empty]
  by simp

end
